theory Spec2Isabelle
  imports Main
begin

section \<open>The 7-colour palette (app.py, lines 17-37)\<close>

text \<open>
  A colour is a triple of channel values. Inside the dithering buffer the channels are
  16-bit signed integers, in the palette and in a PIL image they are 0..255; all of them
  are modelled as \<open>int\<close>, and the 16-bit wrap-around of the buffer is written out
  where the buffer is updated.
\<close>

type_synonym rgb = "int \<times> int \<times> int"

text \<open>
  \<open>color_palette\<close> is a Python dict literal. A dict iterates in insertion order, and
  \<open>closest_palette_color\<close> depends on that order, so the dict is an association list
  in the order of the literal.
\<close>

definition color_palette :: "(rgb \<times> nat) list" where
  "color_palette =
     [((255, 255, 255), 0xFF),
      ((255, 255, 0), 0xFC),
      ((255, 165, 0), 0xEC),
      ((255, 0, 0), 0xE0),
      ((0, 128, 0), 0x35),
      ((0, 0, 255), 0x2B),
      ((0, 0, 0), 0x00)]"

text \<open>The keys of the dict, in iteration order (\<open>for palette_rgb in color_palette\<close>).\<close>

definition palette_keys :: "rgb list" where
  "palette_keys = map fst color_palette"

text \<open>
  Line 33: \<open>sum((int(rgb[i]) - int(palette_rgb[i])) ** 2 for i in range(3))\<close>, on
  Python's unbounded integers.
\<close>

fun sq_dist :: "rgb \<Rightarrow> rgb \<Rightarrow> int" where
  "sq_dist (r, g, b) (pr, pg, pb) = (r - pr)\<^sup>2 + (g - pg)\<^sup>2 + (b - pb)\<^sup>2"

text \<open>
  \<open>min_dist\<close> starts as \<open>float('inf')\<close>: \<open>None\<close> stands for infinity, and
  \<open>dist < min_dist\<close> is then true for every integer \<open>dist\<close>.
\<close>

fun lt_min_dist :: "int \<Rightarrow> int option \<Rightarrow> bool" where
  "lt_min_dist dist None = True"
| "lt_min_dist dist (Some m) = (dist < m)"

text \<open>The loop of lines 32-36, with its two variables \<open>min_dist\<close> and \<open>closest_color\<close>.\<close>

fun closest_loop :: "rgb \<Rightarrow> rgb list \<Rightarrow> int option \<Rightarrow> rgb \<Rightarrow> rgb" where
  "closest_loop rgb [] min_dist closest_color = closest_color"
| "closest_loop rgb (palette_rgb # rest) min_dist closest_color =
     (let dist = sq_dist rgb palette_rgb in
      if lt_min_dist dist min_dist
      then closest_loop rgb rest (Some dist) palette_rgb
      else closest_loop rgb rest min_dist closest_color)"

definition closest_palette_color :: "rgb \<Rightarrow> rgb" where
  "closest_palette_color rgb = closest_loop rgb palette_keys None (255, 255, 255)"

section \<open>Floyd-Steinberg dithering (app.py, lines 39-60)\<close>

text \<open>
  A PIL image in mode RGB: its size and its pixels, row by row (\<open>rows image ! y ! x\<close> is
  the pixel at column \<open>x\<close> of row \<open>y\<close>). A well-formed image has \<open>height\<close> rows of
  \<open>width\<close> pixels each, with channels in 0..255.
\<close>

record image =
  width :: nat
  height :: nat
  rows :: "rgb list list"

text \<open>The numpy array of shape (height, width, 3): a list of rows of pixels.\<close>

type_synonym buffer = "rgb list list"

text \<open>A value stored in an \<open>int16\<close> array wraps around modulo \<open>2 ^ 16\<close>.\<close>

definition wrap_int16 :: "int \<Rightarrow> int" where
  "wrap_int16 v = (v + 32768) mod 65536 - 32768"

fun cast_int16 :: "rgb \<Rightarrow> rgb" where
  "cast_int16 (r, g, b) = (wrap_int16 r, wrap_int16 g, wrap_int16 b)"

text \<open>
  Line 41: \<open>np.array(image, dtype=np.int16)\<close> reads every pixel of the image into an
  array of \<open>image.height\<close> rows and \<open>image.width\<close> columns.
\<close>

definition np_array_int16 :: "image \<Rightarrow> buffer" where
  "np_array_int16 img =
     map (\<lambda>y. map (\<lambda>x. cast_int16 (rows img ! y ! x)) [0..<width img]) [0..<height img]"

text \<open>
  Line 47: \<open>np.array(old_pixel) - np.array(new_pixel)\<close>. The second array is built from
  Python integers and is 64 bits wide, so the difference is exact.
\<close>

fun quant_error :: "rgb \<Rightarrow> rgb \<Rightarrow> rgb" where
  "quant_error (r, g, b) (nr, ng, nb) = (r - nr, g - ng, b - nb)"

text \<open>
  \<open>(quant_error * k / 16).astype(np.int16)\<close>: the product is an integer, the division is
  a float division by a power of two (exact for these magnitudes), and the cast drops
  the fraction, rounding towards zero. The error of a 16-bit pixel against a palette
  colour lies within \<open>-33023..32767\<close>, so the quotient fits 16 bits and the cast does not
  wrap.
\<close>

definition trunc_div16 :: "int \<Rightarrow> int" where
  "trunc_div16 n = (if n < 0 then - ((- n) div 16) else n div 16)"

fun error_share :: "rgb \<Rightarrow> int \<Rightarrow> rgb" where
  "error_share (er, eg, eb) k = (trunc_div16 (er * k), trunc_div16 (eg * k), trunc_div16 (eb * k))"

fun add_int16 :: "rgb \<Rightarrow> rgb \<Rightarrow> rgb" where
  "add_int16 (r, g, b) (dr, dg, db) = (wrap_int16 (r + dr), wrap_int16 (g + dg), wrap_int16 (b + db))"

text \<open>\<open>pixels[y, x][:3] = c\<close>, an update in place of one cell of the array.\<close>

definition set_pixel :: "buffer \<Rightarrow> nat \<Rightarrow> nat \<Rightarrow> rgb \<Rightarrow> buffer" where
  "set_pixel pixels y x c = pixels[y := (pixels ! y)[x := c]]"

text \<open>\<open>pixels[y, x][:3] += d\<close>, a 16-bit addition in place.\<close>

definition add_pixel :: "buffer \<Rightarrow> nat \<Rightarrow> nat \<Rightarrow> rgb \<Rightarrow> buffer" where
  "add_pixel pixels y x d = set_pixel pixels y x (add_int16 (pixels ! y ! x) d)"

text \<open>
  The body of the inner loop, lines 44-57, for the pixel at column \<open>x\<close> of row \<open>y\<close> of an
  image of width \<open>w\<close> and height \<open>h\<close>. The scan takes \<open>y\<close> over \<open>range(h)\<close> and \<open>x\<close> over
  \<open>range(w)\<close> on an array of shape \<open>(h, w, 3)\<close>, and every neighbour is guarded, so no
  index is out of range. \<open>x\<close> is a natural number here, so the guard \<open>x - 1 >= 0\<close> is
  taken on integers.
\<close>

definition dither_pixel :: "nat \<Rightarrow> nat \<Rightarrow> buffer \<Rightarrow> nat \<Rightarrow> nat \<Rightarrow> buffer" where
  "dither_pixel w h pixels y x =
     (let old_pixel = pixels ! y ! x;
          new_pixel = closest_palette_color old_pixel;
          pixels = set_pixel pixels y x new_pixel;
          qerr = quant_error old_pixel new_pixel;
          pixels = (if x + 1 < w
                    then add_pixel pixels y (x + 1) (error_share qerr 7) else pixels);
          pixels = (if int x - 1 \<ge> 0 \<and> y + 1 < h
                    then add_pixel pixels (y + 1) (x - 1) (error_share qerr 3) else pixels);
          pixels = (if y + 1 < h
                    then add_pixel pixels (y + 1) x (error_share qerr 5) else pixels);
          pixels = (if x + 1 < w \<and> y + 1 < h
                    then add_pixel pixels (y + 1) (x + 1) (error_share qerr 1) else pixels)
      in pixels)"

text \<open>Lines 43-57: one row, left to right.\<close>

definition dither_row :: "nat \<Rightarrow> nat \<Rightarrow> buffer \<Rightarrow> nat \<Rightarrow> buffer" where
  "dither_row w h pixels y = foldl (\<lambda>pixels x. dither_pixel w h pixels y x) pixels [0..<w]"

text \<open>Lines 42-57: all rows, top to bottom.\<close>

definition dither_rows :: "nat \<Rightarrow> nat \<Rightarrow> buffer \<Rightarrow> buffer" where
  "dither_rows w h pixels = foldl (\<lambda>pixels y. dither_row w h pixels y) pixels [0..<h]"

text \<open>Line 59: \<open>np.clip(pixels, 0, 255)\<close>, and line 60: \<open>pixels.astype(np.uint8)\<close>.\<close>

fun np_clip :: "rgb \<Rightarrow> rgb" where
  "np_clip (r, g, b) = (max 0 (min 255 r), max 0 (min 255 g), max 0 (min 255 b))"

fun astype_uint8 :: "rgb \<Rightarrow> rgb" where
  "astype_uint8 (r, g, b) = (r mod 256, g mod 256, b mod 256)"

definition apply_floyd_steinberg_dithering :: "image \<Rightarrow> image" where
  "apply_floyd_steinberg_dithering img =
     (let pixels = np_array_int16 img;
          pixels = dither_rows (width img) (height img) pixels;
          pixels = map (map np_clip) pixels
      in \<lparr>width = width img, height = height img,
          rows = map (map astype_uint8) pixels\<rparr>)"

section \<open>Encoding and the processing pipeline (app.py, lines 62-87)\<close>

text \<open>
  Exceptions are values. \<open>IndexError\<close> is what \<open>getpixel\<close> raises outside the image;
  \<open>Library_error\<close> is any exception of the decoding and resizing library, with its
  message.
\<close>

datatype exn = IndexError | Library_error string

fun str_exn :: "exn \<Rightarrow> string" where
  "str_exn IndexError = ''image index out of range''"
| "str_exn (Library_error msg) = msg"

text \<open>\<open>image.getpixel((x, y))\<close> of PIL: the pixel, or \<open>IndexError\<close> outside the image.\<close>

fun getpixel :: "image \<Rightarrow> nat \<times> nat \<Rightarrow> exn + rgb" where
  "getpixel img (x, y) =
     (if x < width img \<and> y < height img then Inr (rows img ! y ! x) else Inl IndexError)"

text \<open>Line 81: \<open>color_palette.get(tuple(rgb), 0xFF)\<close>, a lookup with White's code as default.\<close>

definition palette_get :: "rgb \<Rightarrow> nat" where
  "palette_get rgb = (case map_of color_palette rgb of Some code \<Rightarrow> code | None \<Rightarrow> 0xFF)"

text \<open>
  Line 82: the format \<open>02X\<close> writes a non-negative integer in upper-case hexadecimal,
  padded with zeros on the left to at least two characters.
\<close>

definition hex_digit :: "nat \<Rightarrow> char" where
  "hex_digit d = ''0123456789ABCDEF'' ! d"

fun upper_hex :: "nat \<Rightarrow> string" where
  "upper_hex n = (if n < 16 then [hex_digit n] else upper_hex (n div 16) @ [hex_digit (n mod 16)])"

definition format_02X :: "nat \<Rightarrow> string" where
  "format_02X v = (let s = upper_hex v in replicate (2 - length s) (CHR ''0'') @ s)"

text \<open>
  Lines 79-82, the inner loop over the columns \<open>xs\<close> of row \<open>y\<close>: each pixel appends one
  token to \<open>data_array\<close>; an exception of \<open>getpixel\<close> ends the loop.
\<close>

fun encode_row :: "image \<Rightarrow> nat \<Rightarrow> nat list \<Rightarrow> string list \<Rightarrow> exn + string list" where
  "encode_row img y [] data_array = Inr data_array"
| "encode_row img y (x # xs) data_array =
     (case getpixel img (x, y) of
        Inl e \<Rightarrow> Inl e
      | Inr rgb \<Rightarrow>
          (let color_code = palette_get rgb
           in encode_row img y xs (data_array @ [''0x'' @ format_02X color_code])))"

text \<open>Lines 78-82, the outer loop over the rows \<open>ys\<close>; every row runs \<open>x\<close> over \<open>range(600)\<close>.\<close>

fun encode_rows :: "image \<Rightarrow> nat list \<Rightarrow> string list \<Rightarrow> exn + string list" where
  "encode_rows img [] data_array = Inr data_array"
| "encode_rows img (y # ys) data_array =
     (case encode_row img y [0..<600] data_array of
        Inl e \<Rightarrow> Inl e
      | Inr data_array \<Rightarrow> encode_rows img ys data_array)"

text \<open>Python's \<open>sep.join(strings)\<close>.\<close>

fun join :: "string \<Rightarrow> string list \<Rightarrow> string" where
  "join sep [] = []"
| "join sep [s] = s"
| "join sep (s # t # ts) = s @ sep @ join sep (t # ts)"

text \<open>
  The decoding and resizing library (\<open>base64\<close> and PIL) is outside the repository: its four
  calls of lines 66-71 are parameters, each returning a value or raising. \<open>'raw\<close> is an
  image as the library decoded it, in any mode; \<open>convert("RGB")\<close> yields an RGB image.
\<close>

record 'raw library =
  b64decode :: "string \<Rightarrow> exn + string"
  Image_open :: "string \<Rightarrow> exn + 'raw"
  resize :: "'raw \<Rightarrow> nat \<times> nat \<Rightarrow> exn + 'raw"
  convert_RGB :: "'raw \<Rightarrow> exn + image"

text \<open>Lines 66-71: decode, open, resize to 600 by 448, convert to RGB.\<close>

definition load_image :: "'raw library \<Rightarrow> string \<Rightarrow> exn + image" where
  "load_image lib image_data =
     (case b64decode lib image_data of
        Inl e \<Rightarrow> Inl e
      | Inr image_bytes \<Rightarrow>
          (case Image_open lib image_bytes of
             Inl e \<Rightarrow> Inl e
           | Inr opened \<Rightarrow>
               (case resize lib opened (600, 448) of
                  Inl e \<Rightarrow> Inl e
                | Inr resized \<Rightarrow> convert_RGB lib resized)))"

text \<open>The body of the \<open>try\<close> block, lines 65-84.\<close>

definition process_image_try :: "'raw library \<Rightarrow> string \<Rightarrow> exn + string" where
  "process_image_try lib image_data =
     (case load_image lib image_data of
        Inl e \<Rightarrow> Inl e
      | Inr img \<Rightarrow>
          (let dithered_image = apply_floyd_steinberg_dithering img
           in case encode_rows dithered_image [0..<448] [] of
                Inl e \<Rightarrow> Inl e
              | Inr data_array \<Rightarrow> Inr (join '', '' data_array)))"

text \<open>
  \<open>process_image\<close>: \<open>except Exception\<close> turns every exception of the body into the return
  value \<open>None\<close> (the message it prints is not modelled).
\<close>

definition process_image :: "'raw library \<Rightarrow> string \<Rightarrow> string option" where
  "process_image lib image_data =
     (case process_image_try lib image_data of Inl e \<Rightarrow> None | Inr s \<Rightarrow> Some s)"

section \<open>The image registry (app.py, lines 12-15 and 93-176)\<close>

text \<open>One stored image: the dict with the keys \<open>data\<close>, \<open>timestamp\<close> and \<open>name\<close>.\<close>

record stored_image =
  data :: string
  timestamp :: string
  name :: string

text \<open>
  The three module-level variables. Python compares dicts by content (\<open>==\<close>), which is
  equality of records here; no code of the module compares them by identity.
\<close>

record registry =
  processed_images :: "stored_image list"
  sent_images :: "stored_image list"
  current_image_index :: nat

definition initial_registry :: registry where
  "initial_registry = \<lparr>processed_images = [], sent_images = [], current_image_index = 0\<rparr>"

text \<open>
  What an endpoint returns: a JSON error with its status code; the JSON of a successful
  upload with \<open>total_images\<close>; the text of an image; the JSON of \<open>status\<close> with
  \<open>total_images\<close>, \<open>sent_images\<close> and \<open>current_index\<close>; the JSON of \<open>clear_images\<close>.
\<close>

datatype response =
  Json_error string nat
| Upload_ok nat
| Image_data string
| Status_json nat nat nat
| Cleared_json

text \<open>The JSON object of an upload request: its fields \<open>image\<close> and \<open>name\<close>, when present.\<close>

record upload_request =
  image_field :: "string option"
  name_field :: "string option"

text \<open>Python's \<open>str\<close> of a non-negative integer.\<close>

fun str_nat :: "nat \<Rightarrow> string" where
  "str_nat n = (if n < 10 then [''0123456789'' ! n] else str_nat (n div 10) @ [''0123456789'' ! (n mod 10)])"

text \<open>
  Lines 104-108: the append of a new record, with the time \<open>now\<close> read from the clock and
  the name of the request or the default \<open>image_N\<close>.
\<close>

definition store :: "string \<Rightarrow> string \<Rightarrow> string option \<Rightarrow> registry \<Rightarrow> registry" where
  "store processed_data now name_opt st =
     st\<lparr>processed_images := processed_images st @
           [\<lparr>data = processed_data, timestamp = now,
             name = (case name_opt of
                       Some n \<Rightarrow> n
                     | None \<Rightarrow> ''image_'' @ str_nat (length (processed_images st) + 1))\<rparr>]\<rparr>"

text \<open>
  \<open>upload_image\<close>, lines 94-118. \<open>request\<close> is the result of \<open>request.get_json()\<close>, which
  may raise; \<open>if processed_data:\<close> holds for a string that is not empty.
\<close>

definition upload_image ::
    "'raw library \<Rightarrow> string \<Rightarrow> exn + upload_request \<Rightarrow> registry \<Rightarrow> response \<times> registry" where
  "upload_image lib now request st =
     (case request of
        Inl e \<Rightarrow> (Json_error (''Upload failed: '' @ str_exn e) 500, st)
      | Inr json \<Rightarrow>
          (case image_field json of
             None \<Rightarrow> (Json_error ''No image data provided'' 400, st)
           | Some image_data \<Rightarrow>
               (case process_image lib image_data of
                  None \<Rightarrow> (Json_error ''Failed to process image'' 500, st)
                | Some processed_data \<Rightarrow>
                    if processed_data \<noteq> []
                    then (let st = store processed_data now (name_field json) st
                          in (Upload_ok (length (processed_images st)), st))
                    else (Json_error ''Failed to process image'' 500, st))))"

text \<open>\<open>get_img_data\<close>, lines 121-137; \<open>image not in sent_images\<close> is list membership.\<close>

definition get_img_data :: "registry \<Rightarrow> response \<times> registry" where
  "get_img_data st =
     (if processed_images st = [] then (Json_error ''No images available'' 404, st)
      else
        (let img = processed_images st ! (current_image_index st mod length (processed_images st));
             st = st\<lparr>current_image_index :=
                       (current_image_index st + 1) mod length (processed_images st)\<rparr>;
             st = (if img \<notin> set (sent_images st)
                   then st\<lparr>sent_images := sent_images st @ [img]\<rparr> else st)
         in (Image_data (data img), st)))"

text \<open>\<open>status\<close>, lines 140-147.\<close>

definition status :: "registry \<Rightarrow> response \<times> registry" where
  "status st =
     (Status_json (length (processed_images st)) (length (sent_images st)) (current_image_index st),
      st)"

text \<open>\<open>clear_images\<close>, lines 169-176.\<close>

definition clear_images :: "registry \<Rightarrow> response \<times> registry" where
  "clear_images st =
     (Cleared_json, \<lparr>processed_images = [], sent_images = [], current_image_index = 0\<rparr>)"

text \<open>A call of one of the four endpoints, and a run of calls from a state.\<close>

datatype call = Upload string "exn + upload_request" | Next | Status | Clear

fun call_endpoint :: "'raw library \<Rightarrow> call \<Rightarrow> registry \<Rightarrow> response \<times> registry" where
  "call_endpoint lib (Upload now request) st = upload_image lib now request st"
| "call_endpoint lib Next st = get_img_data st"
| "call_endpoint lib Status st = status st"
| "call_endpoint lib Clear st = clear_images st"

fun run :: "'raw library \<Rightarrow> call list \<Rightarrow> registry \<Rightarrow> registry" where
  "run lib [] st = st"
| "run lib (c # cs) st = run lib cs (snd (call_endpoint lib c st))"
text \<open>
  The invariant of the registry: the index is a position of the list whenever the list
  is not empty, and it is 0 whenever the list is empty.
\<close>

definition registry_invariant :: "registry \<Rightarrow> bool" where
  "registry_invariant st =
     ((processed_images st \<noteq> [] \<longrightarrow> current_image_index st < length (processed_images st))
      \<and> (processed_images st = [] \<longrightarrow> current_image_index st = 0))"

text \<open>
  For the examples: a white image of 600 by 448 pixels, and a library that decodes every
  input to that image.
\<close>

definition white_image :: image where
  "white_image =
     \<lparr>width = 600, height = 448, rows = replicate 448 (replicate 600 (255, 255, 255))\<rparr>"

definition white_library :: "image library" where
  "white_library =
     \<lparr>b64decode = (\<lambda>image_data. Inr image_data),
      Image_open = (\<lambda>image_bytes. Inr white_image),
      resize = (\<lambda>opened size. Inr opened),
      convert_RGB = (\<lambda>resized. Inr resized)\<rparr>"

section \<open>Nearest colour\<close>

lemma closest_loop_Some:
  "(closest_loop rgb ps (Some m) c = c \<and> (\<forall>j < length ps. m \<le> sq_dist rgb (ps ! j)))
   \<or> (\<exists>i < length ps.
         closest_loop rgb ps (Some m) c = ps ! i
         \<and> sq_dist rgb (ps ! i) < m
         \<and> (\<forall>j < length ps. sq_dist rgb (ps ! i) \<le> sq_dist rgb (ps ! j))
         \<and> (\<forall>j < i. sq_dist rgb (ps ! i) < sq_dist rgb (ps ! j)))"
proof (induction ps arbitrary: m c)
  case Nil
  show ?case by simp
next
  case (Cons p ps)
  show ?case
  proof (cases "sq_dist rgb p < m")
    case True
    from Cons.IH [of "sq_dist rgb p" p] show ?thesis
    proof (elim disjE conjE exE)
      assume same: "closest_loop rgb ps (Some (sq_dist rgb p)) p = p"
        and rest: "\<forall>j < length ps. sq_dist rgb p \<le> sq_dist rgb (ps ! j)"
      have "\<forall>j < length (p # ps). sq_dist rgb p \<le> sq_dist rgb ((p # ps) ! j)"
        using rest by (simp add: nth_Cons split: nat.split)
      with same True have
        "0 < length (p # ps) \<and> closest_loop rgb (p # ps) (Some m) c = (p # ps) ! 0
         \<and> sq_dist rgb ((p # ps) ! 0) < m
         \<and> (\<forall>j < length (p # ps). sq_dist rgb ((p # ps) ! 0) \<le> sq_dist rgb ((p # ps) ! j))
         \<and> (\<forall>j < 0. sq_dist rgb ((p # ps) ! 0) < sq_dist rgb ((p # ps) ! j))"
        by simp
      then show ?thesis by blast
    next
      fix i
      assume i: "i < length ps"
        and res: "closest_loop rgb ps (Some (sq_dist rgb p)) p = ps ! i"
        and lt: "sq_dist rgb (ps ! i) < sq_dist rgb p"
        and least: "\<forall>j < length ps. sq_dist rgb (ps ! i) \<le> sq_dist rgb (ps ! j)"
        and first: "\<forall>j < i. sq_dist rgb (ps ! i) < sq_dist rgb (ps ! j)"
      have "\<forall>j < length (p # ps). sq_dist rgb (ps ! i) \<le> sq_dist rgb ((p # ps) ! j)"
        using least lt by (simp add: nth_Cons split: nat.split)
      moreover have "\<forall>j < Suc i. sq_dist rgb (ps ! i) < sq_dist rgb ((p # ps) ! j)"
        using first lt by (simp add: nth_Cons split: nat.split)
      ultimately have
        "Suc i < length (p # ps) \<and> closest_loop rgb (p # ps) (Some m) c = (p # ps) ! Suc i
         \<and> sq_dist rgb ((p # ps) ! Suc i) < m
         \<and> (\<forall>j < length (p # ps). sq_dist rgb ((p # ps) ! Suc i) \<le> sq_dist rgb ((p # ps) ! j))
         \<and> (\<forall>j < Suc i. sq_dist rgb ((p # ps) ! Suc i) < sq_dist rgb ((p # ps) ! j))"
        using i res lt True by simp
      then show ?thesis by blast
    qed
  next
    case False
    from Cons.IH [of m c] show ?thesis
    proof (elim disjE conjE exE)
      assume same: "closest_loop rgb ps (Some m) c = c"
        and rest: "\<forall>j < length ps. m \<le> sq_dist rgb (ps ! j)"
      have "\<forall>j < length (p # ps). m \<le> sq_dist rgb ((p # ps) ! j)"
        using rest False by (simp add: nth_Cons split: nat.split)
      with same False show ?thesis by simp
    next
      fix i
      assume i: "i < length ps"
        and res: "closest_loop rgb ps (Some m) c = ps ! i"
        and lt: "sq_dist rgb (ps ! i) < m"
        and least: "\<forall>j < length ps. sq_dist rgb (ps ! i) \<le> sq_dist rgb (ps ! j)"
        and first: "\<forall>j < i. sq_dist rgb (ps ! i) < sq_dist rgb (ps ! j)"
      have "\<forall>j < length (p # ps). sq_dist rgb (ps ! i) \<le> sq_dist rgb ((p # ps) ! j)"
        using least lt False by (simp add: nth_Cons split: nat.split)
      moreover have "\<forall>j < Suc i. sq_dist rgb (ps ! i) < sq_dist rgb ((p # ps) ! j)"
        using first lt False by (simp add: nth_Cons split: nat.split)
      ultimately have
        "Suc i < length (p # ps) \<and> closest_loop rgb (p # ps) (Some m) c = (p # ps) ! Suc i
         \<and> sq_dist rgb ((p # ps) ! Suc i) < m
         \<and> (\<forall>j < length (p # ps). sq_dist rgb ((p # ps) ! Suc i) \<le> sq_dist rgb ((p # ps) ! j))
         \<and> (\<forall>j < Suc i. sq_dist rgb ((p # ps) ! Suc i) < sq_dist rgb ((p # ps) ! j))"
        using i res lt False by simp
      then show ?thesis by blast
    qed
  qed
qed

lemma closest_loop_None:
  "\<exists>i < length (p # ps).
      closest_loop rgb (p # ps) None c = (p # ps) ! i
      \<and> (\<forall>j < length (p # ps). sq_dist rgb ((p # ps) ! i) \<le> sq_dist rgb ((p # ps) ! j))
      \<and> (\<forall>j < i. sq_dist rgb ((p # ps) ! i) < sq_dist rgb ((p # ps) ! j))"
  using closest_loop_Some [of rgb "p # ps" "sq_dist rgb p + 1" c]
  by (auto simp: Let_def split: if_splits)

lemma palette_keys_eq:
  "palette_keys =
     [(255, 255, 255), (255, 255, 0), (255, 165, 0), (255, 0, 0), (0, 128, 0), (0, 0, 255), (0, 0, 0)]"
  by (simp add: palette_keys_def color_palette_def)

lemma closest_palette_color_nth:
  "\<exists>i < length palette_keys.
      closest_palette_color rgb = palette_keys ! i
      \<and> (\<forall>j < length palette_keys.
            sq_dist rgb (closest_palette_color rgb) \<le> sq_dist rgb (palette_keys ! j))
      \<and> (\<forall>j < i. sq_dist rgb (closest_palette_color rgb) < sq_dist rgb (palette_keys ! j))"
proof -
  obtain p ps where cons: "palette_keys = p # ps"
    using palette_keys_eq by simp
  from closest_loop_None [of p ps rgb "(255, 255, 255)"]
  show ?thesis
    unfolding closest_palette_color_def cons [symmetric] by metis
qed

lemma closest_in_palette: "closest_palette_color c \<in> set palette_keys"
  using closest_palette_color_nth [of c] by (metis nth_mem)


section \<open>Dithering: every pixel ends as a palette colour\<close>

lemma shape_set_pixel: "map length (set_pixel b y x c) = map length b"
  by (cases "y < length b")
     (simp_all add: set_pixel_def map_update list_update_same_conv list_update_beyond)

lemma nth_set_pixel:
  "set_pixel b y x c ! y' ! x' =
     (if y' = y \<and> x' = x \<and> y < length b \<and> x < length (b ! y) then c else b ! y' ! x')"
  by (cases "y < length b"; cases "y' = y"; cases "x' = x"; cases "x < length (b ! y)")
     (simp_all add: set_pixel_def list_update_beyond)

lemma shape_add_pixel: "map length (add_pixel b y x d) = map length b"
  by (simp add: add_pixel_def shape_set_pixel)

lemma nth_add_pixel_other:
  "(y', x') \<noteq> (y, x) \<Longrightarrow> add_pixel b y x d ! y' ! x' = b ! y' ! x'"
  by (auto simp: add_pixel_def nth_set_pixel)

lemma shape_dither_pixel: "map length (dither_pixel w h b y x) = map length b"
  by (simp add: dither_pixel_def Let_def shape_add_pixel shape_set_pixel)

text \<open>The four neighbours that receive error come after \<open>(x, y)\<close> in scan order.\<close>

lemma dither_pixel_earlier:
  "y' < y \<or> (y' = y \<and> x' < x) \<Longrightarrow> dither_pixel w h b y x ! y' ! x' = b ! y' ! x'"
  by (auto simp: dither_pixel_def Let_def nth_add_pixel_other nth_set_pixel)

lemma dither_pixel_current:
  "y < length b \<Longrightarrow> x < length (b ! y) \<Longrightarrow>
   dither_pixel w h b y x ! y ! x = closest_palette_color (b ! y ! x)"
  by (auto simp: dither_pixel_def Let_def nth_add_pixel_other nth_set_pixel)

lemma shape_length: "map length b' = map length b \<Longrightarrow> length b' = length b"
  by (metis length_map)

lemma shape_row_length:
  "map length b' = map length b \<Longrightarrow> y < length b \<Longrightarrow> length (b' ! y) = length (b ! y)"
  by (metis length_map nth_map)

text \<open>
  The invariant of the inner loop: after the columns below \<open>n\<close> of row \<open>y\<close>, the rows above
  \<open>y\<close> and the columns below \<open>n\<close> of row \<open>y\<close> hold palette colours.
\<close>

lemma dither_row_prefix:
  assumes above: "\<forall>y' x'. y' < y \<longrightarrow> x' < w \<longrightarrow> b ! y' ! x' \<in> set palette_keys"
    and y: "y < length b" and n: "n \<le> length (b ! y)"
  shows "map length (foldl (\<lambda>b x. dither_pixel w h b y x) b [0..<n]) = map length b
     \<and> (\<forall>y' x'. x' < w \<longrightarrow> y' < y \<or> (y' = y \<and> x' < n) \<longrightarrow>
           foldl (\<lambda>b x. dither_pixel w h b y x) b [0..<n] ! y' ! x' \<in> set palette_keys)"
  using n
proof (induction n)
  case 0
  show ?case using above by simp
next
  case (Suc n)
  define b' where "b' = foldl (\<lambda>b x. dither_pixel w h b y x) b [0..<n]"
  have step: "foldl (\<lambda>b x. dither_pixel w h b y x) b [0..<Suc n] = dither_pixel w h b' y n"
    by (simp add: b'_def)
  from Suc have shape: "map length b' = map length b"
    and fin: "\<forall>y' x'. x' < w \<longrightarrow> y' < y \<or> (y' = y \<and> x' < n) \<longrightarrow>
                b' ! y' ! x' \<in> set palette_keys"
    by (simp_all add: b'_def)
  have yb': "y < length b'" using shape y by (metis length_map)
  have nb': "n < length (b' ! y)"
    using shape_row_length [OF shape y] Suc.prems by simp
  have "dither_pixel w h b' y n ! y' ! x' \<in> set palette_keys"
    if pos: "y' < y \<or> (y' = y \<and> x' < Suc n)" and x': "x' < w" for y' x'
  proof (cases "y' = y \<and> x' = n")
    case True
    then show ?thesis
      using dither_pixel_current [OF yb' nb', of w h] closest_in_palette by simp
  next
    case False
    with pos have earlier: "y' < y \<or> (y' = y \<and> x' < n)" by auto
    then show ?thesis
      using dither_pixel_earlier [of y' y x' n w h b'] fin x' by auto
  qed
  then show ?case
    unfolding step using shape by (simp add: shape_dither_pixel)
qed

lemma dither_row_finalises:
  assumes above: "\<forall>y' x'. y' < y \<longrightarrow> x' < w \<longrightarrow> b ! y' ! x' \<in> set palette_keys"
    and y: "y < length b" and w: "length (b ! y) = w"
  shows "map length (dither_row w h b y) = map length b
    \<and> (\<forall>y' x'. y' < Suc y \<longrightarrow> x' < w \<longrightarrow> dither_row w h b y ! y' ! x' \<in> set palette_keys)"
proof -
  have "w \<le> length (b ! y)" using w by simp
  from dither_row_prefix [OF above y this, of h] show ?thesis
    unfolding dither_row_def by (auto simp: less_Suc_eq)
qed

text \<open>The invariant of the outer loop: the rows below \<open>m\<close> hold palette colours.\<close>

lemma dither_rows_prefix:
  assumes rect: "\<forall>y < length b. length (b ! y) = w" and m: "m \<le> length b"
  shows "map length (foldl (\<lambda>b y. dither_row w h b y) b [0..<m]) = map length b
     \<and> (\<forall>y' x'. y' < m \<longrightarrow> x' < w \<longrightarrow>
           foldl (\<lambda>b y. dither_row w h b y) b [0..<m] ! y' ! x' \<in> set palette_keys)"
  using m
proof (induction m)
  case 0
  show ?case by simp
next
  case (Suc m)
  define b' where "b' = foldl (\<lambda>b y. dither_row w h b y) b [0..<m]"
  have step: "foldl (\<lambda>b y. dither_row w h b y) b [0..<Suc m] = dither_row w h b' m"
    by (simp add: b'_def)
  from Suc have shape: "map length b' = map length b"
    and fin: "\<forall>y' x'. y' < m \<longrightarrow> x' < w \<longrightarrow> b' ! y' ! x' \<in> set palette_keys"
    by (simp_all add: b'_def)
  have mb: "m < length b" using Suc.prems by simp
  have mb': "m < length b'" using shape mb by (metis length_map)
  have wb': "length (b' ! m) = w"
    using shape_row_length [OF shape mb] rect mb by simp
  from dither_row_finalises [OF fin mb' wb', of h] show ?case
    unfolding step using shape by simp
qed

lemma shape_np_array:
  "length (np_array_int16 img) = height img"
  "y < height img \<Longrightarrow> length (np_array_int16 img ! y) = width img"
  by (simp_all add: np_array_int16_def)

lemma dither_rows_np_array:
  "map length (dither_rows (width img) (height img) (np_array_int16 img))
     = map length (np_array_int16 img)"
  "y < height img \<Longrightarrow> x < width img \<Longrightarrow>
     dither_rows (width img) (height img) (np_array_int16 img) ! y ! x \<in> set palette_keys"
  using dither_rows_prefix [of "np_array_int16 img" "width img" "height img" "height img"]
  by (simp_all add: dither_rows_def shape_np_array)

lemma palette_fixed: "c \<in> set palette_keys \<Longrightarrow> astype_uint8 (np_clip c) = c"
  by (auto simp: palette_keys_def color_palette_def)

lemma dithered_shape:
  "length (rows (apply_floyd_steinberg_dithering img)) = height img"
  "y < height img \<Longrightarrow> length (rows (apply_floyd_steinberg_dithering img) ! y) = width img"
  "width (apply_floyd_steinberg_dithering img) = width img"
  "height (apply_floyd_steinberg_dithering img) = height img"
proof -
  let ?b = "dither_rows (width img) (height img) (np_array_int16 img)"
  have len: "length ?b = height img"
    using shape_length [OF dither_rows_np_array(1) [of img]] by (simp add: shape_np_array)
  show "length (rows (apply_floyd_steinberg_dithering img)) = height img"
    using len by (simp add: apply_floyd_steinberg_dithering_def Let_def)
  show "length (rows (apply_floyd_steinberg_dithering img) ! y) = width img" if "y < height img"
    using that len shape_row_length [OF dither_rows_np_array(1) [of img], of y]
    by (simp add: apply_floyd_steinberg_dithering_def Let_def shape_np_array)
  show "width (apply_floyd_steinberg_dithering img) = width img"
    "height (apply_floyd_steinberg_dithering img) = height img"
    by (simp_all add: apply_floyd_steinberg_dithering_def Let_def)
qed

lemma dithered_pixel:
  assumes y: "y < height img" and x: "x < width img"
  shows "rows (apply_floyd_steinberg_dithering img) ! y ! x
           = dither_rows (width img) (height img) (np_array_int16 img) ! y ! x"
    and "rows (apply_floyd_steinberg_dithering img) ! y ! x \<in> set palette_keys"
proof -
  let ?b = "dither_rows (width img) (height img) (np_array_int16 img)"
  have len: "length ?b = height img"
    using shape_length [OF dither_rows_np_array(1) [of img]] by (simp add: shape_np_array)
  have row: "length (?b ! y) = width img"
    using shape_row_length [OF dither_rows_np_array(1) [of img], of y] y
    by (simp add: shape_np_array)
  have pal: "?b ! y ! x \<in> set palette_keys"
    using dither_rows_np_array(2) [OF y x] .
  have "rows (apply_floyd_steinberg_dithering img) ! y ! x = astype_uint8 (np_clip (?b ! y ! x))"
    using y x len row by (simp add: apply_floyd_steinberg_dithering_def Let_def)
  then show "rows (apply_floyd_steinberg_dithering img) ! y ! x = ?b ! y ! x"
    using palette_fixed [OF pal] by simp
  then show "rows (apply_floyd_steinberg_dithering img) ! y ! x \<in> set palette_keys"
    using pal by simp
qed


section \<open>The registry\<close>

lemma store_fields:
  "current_image_index (store d t n st) = current_image_index st"
  "sent_images (store d t n st) = sent_images st"
  "processed_images (store d t n st) =
     processed_images st @
       [\<lparr>data = d, timestamp = t,
         name = (case n of Some s \<Rightarrow> s
                 | None \<Rightarrow> ''image_'' @ str_nat (length (processed_images st) + 1))\<rparr>]"
  by (simp_all add: store_def)

lemma get_img_data_empty:
  "processed_images st = [] \<Longrightarrow> get_img_data st = (Json_error ''No images available'' 404, st)"
  by (simp add: get_img_data_def)

lemma get_img_data_fields:
  assumes "processed_images st \<noteq> []"
  shows "fst (get_img_data st) =
           Image_data (data (processed_images st ! (current_image_index st mod length (processed_images st))))"
    and "processed_images (snd (get_img_data st)) = processed_images st"
    and "current_image_index (snd (get_img_data st)) =
           (current_image_index st + 1) mod length (processed_images st)"
    and "sent_images (snd (get_img_data st)) =
           (if processed_images st ! (current_image_index st mod length (processed_images st))
                 \<in> set (sent_images st)
            then sent_images st
            else sent_images st @
                   [processed_images st ! (current_image_index st mod length (processed_images st))])"
  using assms by (simp_all add: get_img_data_def Let_def)

lemma get_img_data_processed:
  "processed_images (snd (get_img_data st)) = processed_images st"
  by (cases "processed_images st = []") (simp_all add: get_img_data_empty get_img_data_fields)

text \<open>\<open>n\<close> calls of \<open>get_img_data\<close> keep the list and move the index \<open>n\<close> places round it.\<close>

lemma get_img_data_funpow:
  assumes "processed_images st \<noteq> []"
    and idx: "current_image_index st < length (processed_images st)"
  shows "processed_images (((\<lambda>st. snd (get_img_data st)) ^^ n) st) = processed_images st
     \<and> current_image_index (((\<lambda>st. snd (get_img_data st)) ^^ n) st) =
         (current_image_index st + n) mod length (processed_images st)"
proof (induction n)
  case 0
  show ?case using idx by simp
next
  case (Suc n)
  then show ?case
    using assms by (simp add: get_img_data_fields mod_Suc_eq)
qed

lemma upload_image_cases:
  "upload_image lib now request st = (r, st') \<Longrightarrow>
     (st' = st \<and> (\<exists>msg code. r = Json_error msg code))
     \<or> (\<exists>d json. request = Inr json \<and> image_field json = Some d
           \<and> process_image lib d \<noteq> None \<and> the (process_image lib d) \<noteq> []
           \<and> st' = store (the (process_image lib d)) now (name_field json) st
           \<and> r = Upload_ok (length (processed_images st) + 1))"
proof (cases request)
  case (Inl e)
  assume "upload_image lib now request st = (r, st')"
  with Inl show ?thesis by (auto simp: upload_image_def)
next
  case (Inr json)
  assume res: "upload_image lib now request st = (r, st')"
  show ?thesis
  proof (cases "image_field json")
    case None
    with Inr res show ?thesis by (auto simp: upload_image_def)
  next
    case (Some d)
    show ?thesis
    proof (cases "process_image lib d")
      case None
      with Inr Some res show ?thesis by (auto simp: upload_image_def)
    next
      case (Some pd)
      with Inr \<open>image_field json = Some d\<close> res show ?thesis
        by (cases "pd = []") (auto simp: upload_image_def Let_def store_fields)
    qed
  qed
qed

lemma store_invariant: "registry_invariant st \<Longrightarrow> registry_invariant (store d t n st)"
  by (auto simp: registry_invariant_def store_fields less_Suc_eq)

lemma get_img_data_invariant:
  "registry_invariant st \<Longrightarrow> registry_invariant (snd (get_img_data st))"
  by (cases "processed_images st = []")
     (simp_all add: get_img_data_empty get_img_data_fields registry_invariant_def)

lemma call_endpoint_invariant:
  "registry_invariant st \<Longrightarrow> registry_invariant (snd (call_endpoint lib c st))"
proof (cases c)
  case (Upload now request)
  obtain r st' where res: "upload_image lib now request st = (r, st')"
    by (cases "upload_image lib now request st")
  assume "registry_invariant st"
  with upload_image_cases [OF res] store_invariant show ?thesis
    using Upload res by auto
next
  case Next
  assume "registry_invariant st"
  then show ?thesis using Next get_img_data_invariant by simp
next
  case Status
  assume "registry_invariant st"
  then show ?thesis using Status by (simp add: status_def)
next
  case Clear
  show ?thesis using Clear by (simp add: clear_images_def registry_invariant_def)
qed

lemma run_invariant: "registry_invariant st \<Longrightarrow> registry_invariant (run lib cs st)"
  by (induction cs arbitrary: st) (simp_all add: call_endpoint_invariant)


section \<open>Encoding\<close>

lemma encode_row_Inr:
  "encode_row img y xs acc = Inr r \<Longrightarrow>
     r = acc @ map (\<lambda>x. ''0x'' @ format_02X (palette_get (rows img ! y ! x))) xs
     \<and> (\<forall>x \<in> set xs. x < width img \<and> y < height img)"
proof (induction xs arbitrary: acc)
  case Nil
  then show ?case by simp
next
  case (Cons x xs)
  from Cons.prems have inside: "x < width img \<and> y < height img"
    by (simp split: if_splits)
  with Cons.prems have
    "encode_row img y xs (acc @ [''0x'' @ format_02X (palette_get (rows img ! y ! x))]) = Inr r"
    by (simp add: Let_def)
  from Cons.IH [OF this] inside show ?case by simp
qed

lemma encode_row_ok:
  "\<forall>x \<in> set xs. x < width img \<Longrightarrow> y < height img \<Longrightarrow>
     encode_row img y xs acc =
       Inr (acc @ map (\<lambda>x. ''0x'' @ format_02X (palette_get (rows img ! y ! x))) xs)"
  by (induction xs arbitrary: acc) (simp_all add: Let_def)

lemma encode_rows_Inr:
  "encode_rows img ys acc = Inr r \<Longrightarrow>
     r = acc @ concat (map (\<lambda>y. map (\<lambda>x. ''0x'' @ format_02X (palette_get (rows img ! y ! x)))
                                  [0..<600]) ys)
     \<and> (\<forall>y \<in> set ys. y < height img \<and> 600 \<le> width img)"
proof (induction ys arbitrary: acc)
  case Nil
  then show ?case by simp
next
  case (Cons y ys)
  from Cons.prems obtain acc' where row: "encode_row img y [0..<600] acc = Inr acc'"
    and rest: "encode_rows img ys acc' = Inr r"
    by (auto split: sum.splits)
  from encode_row_Inr [OF row]
  have acc': "acc' = acc @ map (\<lambda>x. ''0x'' @ format_02X (palette_get (rows img ! y ! x))) [0..<600]"
    and inside: "\<forall>x \<in> set [0..<600]. x < width img \<and> y < height img"
    by simp_all
  have "(599::nat) \<in> set [0..<600]" by simp
  with inside have "599 < width img \<and> y < height img" by blast
  then have "600 \<le> width img" "y < height img" by simp_all
  with Cons.IH [OF rest] acc' show ?case by simp
qed

lemma encode_rows_ok:
  "600 \<le> width img \<Longrightarrow> \<forall>y \<in> set ys. y < height img \<Longrightarrow>
     encode_rows img ys acc =
       Inr (acc @ concat (map (\<lambda>y. map (\<lambda>x. ''0x'' @ format_02X (palette_get (rows img ! y ! x)))
                                      [0..<600]) ys))"
proof (induction ys arbitrary: acc)
  case Nil
  show ?case by simp
next
  case (Cons y ys)
  have "\<forall>x \<in> set [0..<600]. x < width img" using Cons.prems(1) by simp
  then have "encode_row img y [0..<600] acc =
       Inr (acc @ map (\<lambda>x. ''0x'' @ format_02X (palette_get (rows img ! y ! x))) [0..<600])"
    using Cons.prems(2) by (simp add: encode_row_ok)
  then show ?case using Cons by simp
qed

lemma nth_concat_rows:
  "\<forall>xs \<in> set xss. length xs = n \<Longrightarrow> i < length xss \<Longrightarrow> j < n \<Longrightarrow>
     concat xss ! (i * n + j) = xss ! i ! j"
proof (induction xss arbitrary: i)
  case Nil
  then show ?case by simp
next
  case (Cons xs xss)
  show ?case
  proof (cases i)
    case 0
    with Cons.prems show ?thesis by (simp add: nth_append)
  next
    case (Suc k)
    have "Suc k * n + j = length xs + (k * n + j)" using Cons.prems(1) by simp
    then have "concat (xs # xss) ! (Suc k * n + j) = concat xss ! (k * n + j)"
      by (simp add: nth_append del: mult_Suc)
    with Cons Suc show ?thesis by simp
  qed
qed

lemma length_concat_rows:
  "\<forall>xs \<in> set xss. length xs = n \<Longrightarrow> length (concat xss) = length xss * n"
  by (induction xss) simp_all

lemma palette_get_cases:
  "palette_get c \<in> {0xFF, 0xFC, 0xEC, 0xE0, 0x35, 0x2B, 0x00}"
  by (simp add: palette_get_def color_palette_def)

lemma palette_get_lt: "palette_get c < 256"
  using palette_get_cases [of c] by auto

lemma format_02X_byte:
  "v < 256 \<Longrightarrow> format_02X v = [hex_digit (v div 16), hex_digit (v mod 16)]"
proof (cases "v < 16")
  case True
  then show ?thesis by (simp add: format_02X_def hex_digit_def)
next
  case False
  assume "v < 256"
  then have "v div 16 < 16" by simp
  with False show ?thesis by (simp add: format_02X_def)
qed

lemma hex_digit_upper: "d < 16 \<Longrightarrow> hex_digit d \<in> set ''0123456789ABCDEF''"
  unfolding hex_digit_def by (rule nth_mem) simp

lemma token_form:
  "\<exists>h1 \<in> set ''0123456789ABCDEF''. \<exists>h2 \<in> set ''0123456789ABCDEF''.
      ''0x'' @ format_02X (palette_get c) = [CHR ''0'', CHR ''x'', h1, h2]"
proof -
  have "palette_get c div 16 < 16" "palette_get c mod 16 < 16"
    using palette_get_lt [of c] by simp_all
  then show ?thesis
    using hex_digit_upper format_02X_byte [OF palette_get_lt [of c]] by simp
qed

lemma process_image_Some:
  "process_image lib image_data = Some s \<Longrightarrow>
     \<exists>img data_array. load_image lib image_data = Inr img
       \<and> encode_rows (apply_floyd_steinberg_dithering img) [0..<448] [] = Inr data_array
       \<and> s = join '', '' data_array"
  by (auto simp: process_image_def process_image_try_def Let_def split: sum.splits)

lemma process_image_ok:
  assumes load: "load_image lib image_data = Inr img"
    and w: "600 \<le> width img" and h: "448 \<le> height img"
  shows "process_image lib image_data =
           Some (join '', ''
             (concat (map (\<lambda>y. map (\<lambda>x. ''0x'' @ format_02X (palette_get
                        (rows (apply_floyd_steinberg_dithering img) ! y ! x))) [0..<600])
                      [0..<448])))"
proof -
  have "600 \<le> width (apply_floyd_steinberg_dithering img)"
    and "\<forall>y \<in> set [0..<448]. y < height (apply_floyd_steinberg_dithering img)"
    using w h by (simp_all add: dithered_shape)
  from encode_rows_ok [OF this, of "[]"] load show ?thesis
    by (simp add: process_image_def process_image_try_def Let_def)
qed

lemma length_join:
  "xs \<noteq> [] \<Longrightarrow> \<forall>t \<in> set xs. length t = k \<Longrightarrow>
     length (join sep xs) + length sep = length xs * (k + length sep)"
  by (induction sep xs rule: join.induct) simp_all

lemma join_not_empty: "xs \<noteq> [] \<Longrightarrow> \<forall>t \<in> set xs. t \<noteq> [] \<Longrightarrow> join sep xs \<noteq> []"
  by (induction sep xs rule: join.induct) simp_all

lemma white_image_size: "width white_image = 600" "height white_image = 448"
  by (simp_all only: white_image_def image.simps)

lemma load_white_library: "load_image white_library image_data = Inr white_image"
  by (simp add: load_image_def white_library_def)

lemma process_white_library:
  "\<exists>s. process_image white_library image_data = Some s \<and> s \<noteq> []"
proof -
  let ?tok = "\<lambda>y x. ''0x'' @ format_02X (palette_get
                        (rows (apply_floyd_steinberg_dithering white_image) ! y ! x))"
  let ?rows = "map (\<lambda>y. map (?tok y) [0..<600]) [0..<448]"
  have "process_image white_library image_data = Some (join '', '' (concat ?rows))"
    by (rule process_image_ok [OF load_white_library]) (simp_all add: white_image_size)
  moreover have each: "\<forall>xs \<in> set ?rows. length xs = 600" by auto
  have "length (concat ?rows) = 448 * 600"
    by (subst length_concat_rows [OF each]) simp
  then have "length (concat ?rows) \<noteq> 0" by simp
  then have "concat ?rows \<noteq> []" by (simp only: length_0_conv not_False_eq_True)
  moreover have "\<forall>t \<in> set (concat ?rows). t \<noteq> []" by auto
  ultimately show ?thesis using join_not_empty by blast
qed

text \<open>A white image has no quantisation error: every step of the pass leaves it as it is.\<close>

lemma closest_white: "closest_palette_color (255, 255, 255) = (255, 255, 255)"
  by (simp add: closest_palette_color_def palette_keys_def color_palette_def)

lemma set_pixel_same: "set_pixel b y x (b ! y ! x) = b"
  by (simp add: set_pixel_def)

lemma add_pixel_zero_white:
  "b ! y ! x = (255, 255, 255) \<Longrightarrow> add_pixel b y x (0, 0, 0) = b"
  using set_pixel_same [of b y x] by (simp add: add_pixel_def wrap_int16_def)

lemma dither_pixel_white:
  assumes white: "\<forall>y' < h. \<forall>x' < w. b ! y' ! x' = (255, 255, 255)"
    and y: "y < h" and x: "x < w"
  shows "dither_pixel w h b y x = b"
proof -
  have cur: "b ! y ! x = (255, 255, 255)" using white y x by simp
  have keep: "set_pixel b y x (closest_palette_color (b ! y ! x)) = b"
    using set_pixel_same [of b y x] cur by (simp add: closest_white)
  have qerr: "quant_error (b ! y ! x) (closest_palette_color (b ! y ! x)) = (0, 0, 0)"
    by (simp add: cur closest_white)
  have share: "error_share (0, 0, 0) k = (0, 0, 0)" for k
    by (simp add: trunc_div16_def)
  have zero: "add_pixel b y' x' (0, 0, 0) = b" if "y' < h" "x' < w" for y' x'
    using white that by (simp add: add_pixel_zero_white)
  have right: "(if x + 1 < w then add_pixel b y (x + 1) (0, 0, 0) else b) = b"
    using y by (simp add: zero)
  have below_left: "(if int x - 1 \<ge> 0 \<and> y + 1 < h
      then add_pixel b (y + 1) (x - 1) (0, 0, 0) else b) = b"
    using x by (simp add: zero)
  have below: "(if y + 1 < h then add_pixel b (y + 1) x (0, 0, 0) else b) = b"
    using x by (simp add: zero)
  have below_right: "(if x + 1 < w \<and> y + 1 < h
      then add_pixel b (y + 1) (x + 1) (0, 0, 0) else b) = b"
    by (simp add: zero)
  show ?thesis
    unfolding dither_pixel_def Let_def keep qerr share right below_left below below_right ..
qed

lemma foldl_fixed: "\<forall>x \<in> set xs. f b x = b \<Longrightarrow> foldl f b xs = b"
  by (induction xs) simp_all

lemma dither_rows_white:
  assumes white: "\<forall>y' < h. \<forall>x' < w. b ! y' ! x' = (255, 255, 255)"
  shows "dither_rows w h b = b"
proof -
  have "dither_row w h b y = b" if "y < h" for y
    unfolding dither_row_def
    by (rule foldl_fixed) (simp add: dither_pixel_white [OF white that])
  then show ?thesis
    unfolding dither_rows_def by (intro foldl_fixed) simp
qed

lemma map_upt_const: "\<forall>i < n. f i = c \<Longrightarrow> map f [0..<n] = replicate n c"
  by (induction n) (simp_all add: replicate_append_same)

lemma concat_replicate_rows: "concat (replicate n (replicate m t)) = replicate (n * m) t"
  by (induction n) (simp_all add: replicate_add)

lemma white_rows_nth:
  "y < 448 \<Longrightarrow> x < 600 \<Longrightarrow> rows white_image ! y ! x = (255, 255, 255)"
  by (simp only: white_image_def image.simps nth_replicate)

lemma np_array_white:
  "np_array_int16 white_image = replicate 448 (replicate 600 (255, 255, 255))"
proof -
  have cell: "cast_int16 (rows white_image ! y ! x) = (255, 255, 255)"
    if "y < 448" "x < 600" for y x
    using white_rows_nth [OF that] by (simp add: wrap_int16_def)
  have "map (\<lambda>x. cast_int16 (rows white_image ! y ! x)) [0..<600]
      = replicate 600 (255, 255, 255)" if "y < 448" for y
    by (rule map_upt_const) (simp add: cell that)
  then have "map (\<lambda>y. map (\<lambda>x. cast_int16 (rows white_image ! y ! x)) [0..<600]) [0..<448]
      = replicate 448 (replicate 600 (255, 255, 255))"
    by (intro map_upt_const) simp
  then show ?thesis
    by (simp only: np_array_int16_def white_image_size)
qed

lemma dithered_white:
  "y < 448 \<Longrightarrow> x < 600 \<Longrightarrow>
     rows (apply_floyd_steinberg_dithering white_image) ! y ! x = (255, 255, 255)"
proof -
  assume y: "y < 448" and x: "x < 600"
  have white: "\<forall>y' < 448. \<forall>x' < 600. np_array_int16 white_image ! y' ! x' = (255, 255, 255)"
    by (simp only: np_array_white nth_replicate) simp
  have "dither_rows 600 448 (np_array_int16 white_image) ! y ! x = (255, 255, 255)"
    using dither_rows_white [OF white] white y x by simp
  then show ?thesis
    using dithered_pixel(1) [of y white_image x] y x by (simp add: white_image_size)
qed

lemma white_token: "format_02X (palette_get (255, 255, 255)) = ''FF''"
  by (simp add: palette_get_def color_palette_def format_02X_def hex_digit_def)

lemma process_white_value:
  "process_image white_library image_data = Some (join '', '' (replicate 268800 ''0xFF''))"
proof -
  let ?tok = "\<lambda>y x. ''0x'' @ format_02X (palette_get
                        (rows (apply_floyd_steinberg_dithering white_image) ! y ! x))"
  have row: "map (?tok y) [0..<600] = replicate 600 ''0xFF''" if "y < 448" for y
    by (rule map_upt_const) (simp add: dithered_white [OF that] white_token)
  from row have "\<forall>y < 448. map (?tok y) [0..<600] = replicate 600 ''0xFF''"
    by blast
  then have "map (\<lambda>y. map (?tok y) [0..<600]) [0..<448] = replicate 448 (replicate 600 ''0xFF'')"
    by (rule map_upt_const)
  then have "concat (map (\<lambda>y. map (?tok y) [0..<600]) [0..<448]) = replicate 268800 ''0xFF''"
    by (simp only: concat_replicate_rows) simp
  moreover have "process_image white_library image_data
      = Some (join '', '' (concat (map (\<lambda>y. map (?tok y) [0..<600]) [0..<448])))"
    by (rule process_image_ok [OF load_white_library]) (simp_all add: white_image_size)
  ultimately show ?thesis by simp
qed

lemma upload_white:
  assumes ok: "process_image white_library d = Some s" and s: "s \<noteq> []"
  shows "upload_image white_library t (Inr \<lparr>image_field = Some d, name_field = None\<rparr>) st
     = (Upload_ok (length (processed_images st) + 1), store s t None st)"
  using ok s by (simp add: upload_image_def Let_def store_fields)

lemma run_upload_next:
  assumes ok: "process_image white_library d = Some s" and s: "s \<noteq> []"
  shows "run white_library [Upload t (Inr \<lparr>image_field = Some d, name_field = None\<rparr>), Next] st
      = snd (get_img_data (store s t None st))"
  by (simp add: upload_white [OF ok s])


section \<open>The claims\<close>

text \<open>
  C1. For every image, the dithered image has the size of the input and each of its
  pixels is one of the 7 palette colours. The reasons, as the claim gives them: the step
  for the pixel at \<open>(x, y)\<close> stores the nearest palette colour there and changes no
  pixel that comes before \<open>(x, y)\<close> in row-major order (its four targets come later), and
  the final clip and cast to 8 bits leave a palette colour as it is.
\<close>

theorem dithering_palette_closure:
  "length (rows (apply_floyd_steinberg_dithering img)) = height img
   \<and> (\<forall>y < height img. length (rows (apply_floyd_steinberg_dithering img) ! y) = width img)
   \<and> (\<forall>y < height img. \<forall>x < width img.
         rows (apply_floyd_steinberg_dithering img) ! y ! x \<in> set palette_keys)
   \<and> (y < length pixels \<and> x < length (pixels ! y) \<longrightarrow>
         dither_pixel w h pixels y x ! y ! x = closest_palette_color (pixels ! y ! x))
   \<and> (\<forall>y' x'. y' < y \<or> (y' = y \<and> x' < x) \<longrightarrow>
         dither_pixel w h pixels y x ! y' ! x' = pixels ! y' ! x')
   \<and> (\<forall>c \<in> set palette_keys. astype_uint8 (np_clip c) = c)"
  using dithered_shape(1,2) [where img = img] dithered_pixel(2) [where img = img]
    dither_pixel_current [of y pixels x w h] dither_pixel_earlier [of _ y _ x w h pixels]
    palette_fixed
  by blast

text \<open>
  A 3 by 2 image: its dithered pixel at column 1 of row 1 is Green, a palette colour. The
  step for its first pixel stores Orange there and spreads the error (-55, -65, 50) over
  three neighbours; the step for the second pixel leaves the Orange of the first alone.
\<close>

theorem dithering_palette_closure_witness:
  "(1::nat) < height \<lparr>width = 3, height = 2,
        rows = [[(200, 100, 50), (30, 60, 90), (128, 128, 128)],
                [(10, 10, 10), (10, 200, 10), (255, 255, 255)]]\<rparr>
   \<and> (1::nat) < width \<lparr>width = 3, height = 2,
        rows = [[(200, 100, 50), (30, 60, 90), (128, 128, 128)],
                [(10, 10, 10), (10, 200, 10), (255, 255, 255)]]\<rparr>
   \<and> rows (apply_floyd_steinberg_dithering \<lparr>width = 3, height = 2,
        rows = [[(200, 100, 50), (30, 60, 90), (128, 128, 128)],
                [(10, 10, 10), (10, 200, 10), (255, 255, 255)]]\<rparr>) ! 1 ! 1 \<in> set palette_keys
   \<and> rows (apply_floyd_steinberg_dithering \<lparr>width = 3, height = 2,
        rows = [[(200, 100, 50), (30, 60, 90), (128, 128, 128)],
                [(10, 10, 10), (10, 200, 10), (255, 255, 255)]]\<rparr>) ! 1 ! 1 = (0, 128, 0)
   \<and> dither_pixel 3 2 [[(200, 100, 50), (30, 60, 90), (128, 128, 128)],
                        [(10, 10, 10), (10, 200, 10), (255, 255, 255)]] 0 0
        = [[(255, 165, 0), (6, 32, 111), (128, 128, 128)],
           [(- 7, - 10, 25), (7, 196, 13), (255, 255, 255)]]
   \<and> dither_pixel 3 2 [[(255, 165, 0), (6, 32, 111), (128, 128, 128)],
                        [(- 7, - 10, 25), (7, 196, 13), (255, 255, 255)]] 0 1 ! 0 ! 0
        = (255, 165, 0)"
proof -
  let ?img = "\<lparr>width = 3, height = 2,
        rows = [[(200, 100, 50), (30, 60, 90), (128, 128, 128)],
                [(10, 10, 10), (10, 200, 10), (255, 255, 255)]]\<rparr>"
  have green: "rows (apply_floyd_steinberg_dithering ?img) ! 1 ! 1 = (0, 128, 0)"
    by code_simp
  have palette: "rows (apply_floyd_steinberg_dithering ?img) ! 1 ! 1 \<in> set palette_keys"
    using dithering_palette_closure [where img = ?img] by simp
  have first: "dither_pixel 3 2 [[(200, 100, 50), (30, 60, 90), (128, 128, 128)],
                        [(10, 10, 10), (10, 200, 10), (255, 255, 255)]] 0 0
        = [[(255, 165, 0), (6, 32, 111), (128, 128, 128)],
           [(- 7, - 10, 25), (7, 196, 13), (255, 255, 255)]]"
    by code_simp
  have earlier: "dither_pixel 3 2 [[(255, 165, 0), (6, 32, 111), (128, 128, 128)],
                        [(- 7, - 10, 25), (7, 196, 13), (255, 255, 255)]] 0 1 ! 0 ! 0
        = (255, 165, 0)"
    using dithering_palette_closure
      [where y = 0 and x = 1 and w = 3 and h = 2 and img = ?img
         and pixels = "[[(255, 165, 0), (6, 32, 111), (128, 128, 128)],
                        [(- 7, - 10, 25), (7, 196, 13), (255, 255, 255)]]"]
    by simp
  show ?thesis using green palette first earlier by simp
qed

text \<open>
  C2. From the empty registry, after the three records A, B, C are stored in that order,
  the call number \<open>n + 1\<close> of \<open>get_img_data\<close> returns the data of A, B, C, A, B, C, ...
  (the element \<open>n mod 3\<close>), for every \<open>n\<close>; after any number of calls the list of stored
  records is the same, and \<open>status\<close> reports 3 images.
\<close>

theorem registry_cycling:
  "(let st3 = store dC tC nC (store dB tB nB (store dA tA nA initial_registry));
        stn = ((\<lambda>st. snd (get_img_data st)) ^^ n) st3
    in map data (processed_images st3) = [dA, dB, dC]
       \<and> current_image_index st3 = 0
       \<and> fst (get_img_data stn) = Image_data ([dA, dB, dC] ! (n mod 3))
       \<and> processed_images stn = processed_images st3
       \<and> processed_images (snd (get_img_data stn)) = processed_images st3
       \<and> fst (status stn) = Status_json 3 (length (sent_images stn)) (n mod 3))"
proof -
  define st3 where "st3 = store dC tC nC (store dB tB nB (store dA tA nA initial_registry))"
  define stn where "stn = ((\<lambda>st. snd (get_img_data st)) ^^ n) st3"
  have stored: "map data (processed_images st3) = [dA, dB, dC]"
    and len: "length (processed_images st3) = 3"
    and idx: "current_image_index st3 = 0"
    by (simp_all add: st3_def store_fields initial_registry_def)
  have ne: "processed_images st3 \<noteq> []" using len by auto
  have "current_image_index st3 < length (processed_images st3)"
    using idx len by simp
  from get_img_data_funpow [OF ne this, of n]
  have same: "processed_images stn = processed_images st3"
    and pos: "current_image_index stn = n mod 3"
    using idx len by (simp_all add: stn_def)
  have ne': "processed_images stn \<noteq> []" using same ne by simp
  have "map data (processed_images st3) ! (n mod 3) = data (processed_images st3 ! (n mod 3))"
    using len by (simp add: nth_map)
  then have ret: "fst (get_img_data stn) = Image_data ([dA, dB, dC] ! (n mod 3))"
    using get_img_data_fields(1) [OF ne'] same pos len stored by simp
  have kept: "processed_images (snd (get_img_data stn)) = processed_images st3"
    using get_img_data_processed [of stn] same by simp
  have "fst (status stn) = Status_json 3 (length (sent_images stn)) (n mod 3)"
    using same pos len by (simp add: status_def)
  with stored idx ret same kept show ?thesis
    unfolding Let_def st3_def [symmetric] stn_def [symmetric] by simp
qed

text \<open>
  C3, as the code has it. \<open>get_img_data\<close> marks the returned record as delivered by
  content: the record is appended to \<open>sent_images\<close> exactly when that list holds no
  record equal to it, so a list of delivered records without duplicates stays without
  duplicates, and stored records that are equal in content are counted once.
\<close>

theorem delivered_by_content_equality:
  "processed_images st \<noteq> [] \<Longrightarrow>
     sent_images (snd (get_img_data st)) =
       (if processed_images st ! (current_image_index st mod length (processed_images st))
             \<in> set (sent_images st)
        then sent_images st
        else sent_images st @
               [processed_images st ! (current_image_index st mod length (processed_images st))])
     \<and> (distinct (sent_images st) \<longrightarrow> distinct (sent_images (snd (get_img_data st))))"
  by (simp add: get_img_data_fields)

text \<open>
  Two stored records of equal content, the first already delivered: delivering the second
  leaves the list of delivered records as it is, with one element.
\<close>

theorem delivered_by_content_equality_witness:
  "processed_images
      \<lparr>processed_images =
         [\<lparr>data = ''0xFF'', timestamp = ''2024-01-01T00:00:00'', name = ''photo''\<rparr>,
          \<lparr>data = ''0xFF'', timestamp = ''2024-01-01T00:00:00'', name = ''photo''\<rparr>],
       sent_images = [\<lparr>data = ''0xFF'', timestamp = ''2024-01-01T00:00:00'', name = ''photo''\<rparr>],
       current_image_index = 1\<rparr> \<noteq> []
   \<and> sent_images (snd (get_img_data
      \<lparr>processed_images =
         [\<lparr>data = ''0xFF'', timestamp = ''2024-01-01T00:00:00'', name = ''photo''\<rparr>,
          \<lparr>data = ''0xFF'', timestamp = ''2024-01-01T00:00:00'', name = ''photo''\<rparr>],
       sent_images = [\<lparr>data = ''0xFF'', timestamp = ''2024-01-01T00:00:00'', name = ''photo''\<rparr>],
       current_image_index = 1\<rparr>))
     = [\<lparr>data = ''0xFF'', timestamp = ''2024-01-01T00:00:00'', name = ''photo''\<rparr>]
   \<and> distinct (sent_images (snd (get_img_data
      \<lparr>processed_images =
         [\<lparr>data = ''0xFF'', timestamp = ''2024-01-01T00:00:00'', name = ''photo''\<rparr>,
          \<lparr>data = ''0xFF'', timestamp = ''2024-01-01T00:00:00'', name = ''photo''\<rparr>],
       sent_images = [\<lparr>data = ''0xFF'', timestamp = ''2024-01-01T00:00:00'', name = ''photo''\<rparr>],
       current_image_index = 1\<rparr>)))"
  using delivered_by_content_equality
    [of "\<lparr>processed_images =
         [\<lparr>data = ''0xFF'', timestamp = ''2024-01-01T00:00:00'', name = ''photo''\<rparr>,
          \<lparr>data = ''0xFF'', timestamp = ''2024-01-01T00:00:00'', name = ''photo''\<rparr>],
       sent_images = [\<lparr>data = ''0xFF'', timestamp = ''2024-01-01T00:00:00'', name = ''photo''\<rparr>],
       current_image_index = 1\<rparr>"]
  by simp

text \<open>
  The claim C3 as the specification states it fails: two records of equal content are
  stored and both are delivered, and \<open>status\<close> reports 2 stored images and 1 delivered.
\<close>

theorem delivered_by_identity_counterexample:
  "fst (status (snd (get_img_data (snd (get_img_data
      (store ''0xFF'' ''2024-01-01T00:00:00'' (Some ''photo'')
        (store ''0xFF'' ''2024-01-01T00:00:00'' (Some ''photo'') initial_registry)))))))
     = Status_json 2 1 0"
  by (simp add: status_def get_img_data_def store_def initial_registry_def Let_def)

text \<open>
  C4. Whenever \<open>process_image\<close> succeeds, its result is the join with ", " of exactly
  600 * 448 = 268800 tokens; the token at position \<open>y * 600 + x\<close> (row-major order) is
  "0x" followed by the two-digit code of the dithered pixel at column \<open>x\<close> of row \<open>y\<close>;
  every token is "0x" and two upper-case hexadecimal digits. The string is 1612798
  characters long.
\<close>

theorem process_image_wire_format:
  assumes "process_image lib image_data = Some s"
  shows "\<exists>img data_array.
      load_image lib image_data = Inr img
      \<and> s = join '', '' data_array
      \<and> length data_array = 600 * 448
      \<and> length data_array = 268800
      \<and> (\<forall>y < 448. \<forall>x < 600.
            data_array ! (y * 600 + x) =
              ''0x'' @ format_02X (palette_get
                         (rows (apply_floyd_steinberg_dithering img) ! y ! x)))
      \<and> (\<forall>t \<in> set data_array.
            \<exists>h1 \<in> set ''0123456789ABCDEF''. \<exists>h2 \<in> set ''0123456789ABCDEF''.
              t = [CHR ''0'', CHR ''x'', h1, h2])
      \<and> length s = 1612798"
proof -
  from process_image_Some [OF assms] obtain img data_array where
    load: "load_image lib image_data = Inr img"
    and enc: "encode_rows (apply_floyd_steinberg_dithering img) [0..<448] [] = Inr data_array"
    and s: "s = join '', '' data_array"
    by blast
  let ?d = "apply_floyd_steinberg_dithering img"
  let ?tok = "\<lambda>y x. ''0x'' @ format_02X (palette_get (rows ?d ! y ! x))"
  let ?rows = "map (\<lambda>y. map (?tok y) [0..<600]) [0..<448]"
  from encode_rows_Inr [OF enc] have arr: "data_array = concat ?rows" by simp
  have each: "\<forall>xs \<in> set ?rows. length xs = 600" by auto
  have len: "length data_array = 268800"
    unfolding arr by (subst length_concat_rows [OF each]) simp
  have pos: "data_array ! (y * 600 + x) = ?tok y x" if "y < 448" "x < 600" for y x
    unfolding arr using that by (subst nth_concat_rows [OF each]) simp_all
  have form: "\<exists>h1 \<in> set ''0123456789ABCDEF''. \<exists>h2 \<in> set ''0123456789ABCDEF''.
      t = [CHR ''0'', CHR ''x'', h1, h2]" if "t \<in> set data_array" for t
  proof -
    from that obtain y x where "t = ?tok y x" unfolding arr by auto
    then show ?thesis using token_form by simp
  qed
  have four: "\<forall>t \<in> set data_array. length t = 4"
    using form by fastforce
  have "data_array \<noteq> []" using len by auto
  from length_join [OF this four, of "'', ''"] have "length s = 1612798"
    using len s by simp
  with load s len pos form show ?thesis by (intro exI [of _ img] exI [of _ data_array]) simp
qed

text \<open>
  With a library that decodes its input to a white image of 600 by 448 pixels,
  \<open>process_image\<close> succeeds and returns 268800 tokens "0xFF", in 1612798 characters.
\<close>

theorem process_image_wire_format_witness:
  "process_image white_library ''aGk='' = Some (join '', '' (replicate 268800 ''0xFF''))
   \<and> length (replicate 268800 ''0xFF'') = 268800
   \<and> length (join '', '' (replicate 268800 ''0xFF'')) = 1612798"
proof -
  have ok: "process_image white_library ''aGk='' = Some (join '', '' (replicate 268800 ''0xFF''))"
    by (rule process_white_value)
  from process_image_wire_format [OF ok]
  have len: "length (join '', '' (replicate 268800 ''0xFF'')) = 1612798"
    by blast
  show ?thesis by (intro conjI ok len length_replicate)
qed

text \<open>
  C5. \<open>get_img_data\<close> answers "No images available" (404) exactly when no image is
  stored; then it leaves the registry as it is. After \<open>clear_images\<close> the registry is the
  initial one and \<open>get_img_data\<close> answers "No images available".
\<close>

theorem get_img_data_empty_iff:
  "(fst (get_img_data st) = Json_error ''No images available'' 404) = (processed_images st = [])
   \<and> (processed_images st = [] \<longrightarrow> snd (get_img_data st) = st)
   \<and> (processed_images st \<noteq> [] \<longrightarrow> (\<exists>text. fst (get_img_data st) = Image_data text))
   \<and> snd (clear_images st) = initial_registry
   \<and> get_img_data (snd (clear_images st)) =
       (Json_error ''No images available'' 404, snd (clear_images st))"
  by (cases "processed_images st = []")
     (simp_all add: get_img_data_empty get_img_data_fields clear_images_def initial_registry_def)

text \<open>
  The initial registry answers "No images available" and stays as it is; a registry with
  one image answers with that image's data.
\<close>

theorem get_img_data_empty_iff_witness:
  "processed_images initial_registry = []
   \<and> get_img_data initial_registry = (Json_error ''No images available'' 404, initial_registry)
   \<and> processed_images (store ''0x00'' ''2024-01-01T00:00:00'' None initial_registry) \<noteq> []
   \<and> fst (get_img_data (store ''0x00'' ''2024-01-01T00:00:00'' None initial_registry))
       = Image_data ''0x00''"
proof -
  have empty: "processed_images initial_registry = []"
    by (simp add: initial_registry_def)
  have one: "processed_images (store ''0x00'' ''2024-01-01T00:00:00'' None initial_registry) \<noteq> []"
    by (simp add: store_fields)
  have "fst (get_img_data initial_registry) = Json_error ''No images available'' 404"
    and "snd (get_img_data initial_registry) = initial_registry"
    using get_img_data_empty_iff [of initial_registry] empty by simp_all
  then have "get_img_data initial_registry
      = (Json_error ''No images available'' 404, initial_registry)"
    by (simp add: prod_eq_iff)
  moreover have "fst (get_img_data (store ''0x00'' ''2024-01-01T00:00:00'' None initial_registry))
       = Image_data ''0x00''"
    by (simp add: get_img_data_def store_def initial_registry_def Let_def)
  ultimately show ?thesis using empty one by simp
qed

text \<open>
  C6. When a step of the pipeline raises (the base64 decoding, the opening, the resizing
  or the conversion of the image, or \<open>getpixel\<close> during the encoding; the dithering
  itself raises nothing), \<open>process_image\<close> returns \<open>None\<close> instead of raising, and the
  upload answers "Failed to process image" (500) and leaves the registry, with its list,
  index and delivered list, exactly as it was.
\<close>

theorem process_failure_stores_nothing:
  assumes "b64decode lib image_data = Inl e
     \<or> (\<exists>image_bytes. b64decode lib image_data = Inr image_bytes
           \<and> Image_open lib image_bytes = Inl e)
     \<or> (\<exists>image_bytes opened. b64decode lib image_data = Inr image_bytes
           \<and> Image_open lib image_bytes = Inr opened
           \<and> resize lib opened (600, 448) = Inl e)
     \<or> (\<exists>image_bytes opened resized. b64decode lib image_data = Inr image_bytes
           \<and> Image_open lib image_bytes = Inr opened
           \<and> resize lib opened (600, 448) = Inr resized
           \<and> convert_RGB lib resized = Inl e)
     \<or> (\<exists>img. load_image lib image_data = Inr img
           \<and> encode_rows (apply_floyd_steinberg_dithering img) [0..<448] [] = Inl e)"
    and "image_field json = Some image_data"
  shows "process_image lib image_data = None
     \<and> upload_image lib now (Inr json) st = (Json_error ''Failed to process image'' 500, st)"
proof -
  from assms(1) have "process_image_try lib image_data = Inl e"
    by (auto simp: process_image_try_def load_image_def Let_def)
  then have "process_image lib image_data = None"
    by (simp add: process_image_def)
  then show ?thesis using assms(2) by (simp add: upload_image_def)
qed

text \<open>
  Two failing uploads into a registry that holds one image. With a library whose base64
  decoding raises, and with a library that yields an image of 2 by 2 pixels, where
  \<open>getpixel\<close> raises \<open>IndexError\<close> at column 2, the answer is the error 500 and the
  registry is unchanged.
\<close>

theorem process_failure_stores_nothing_witness:
  "upload_image
      \<lparr>b64decode = (\<lambda>image_data. Inl (Library_error ''Incorrect padding'')),
       Image_open = (\<lambda>image_bytes. Inr white_image),
       resize = (\<lambda>opened size. Inr opened),
       convert_RGB = (\<lambda>resized. Inr resized)\<rparr>
      ''2024-01-01T00:00:09'' (Inr \<lparr>image_field = Some ''a'', name_field = None\<rparr>)
      \<lparr>processed_images = [\<lparr>data = ''0xFF'', timestamp = ''2024-01-01T00:00:00'', name = ''a''\<rparr>],
       sent_images = [], current_image_index = 0\<rparr>
    = (Json_error ''Failed to process image'' 500,
       \<lparr>processed_images = [\<lparr>data = ''0xFF'', timestamp = ''2024-01-01T00:00:00'', name = ''a''\<rparr>],
        sent_images = [], current_image_index = 0\<rparr>)
   \<and> encode_rows (apply_floyd_steinberg_dithering
         \<lparr>width = 2, height = 2, rows = [[(10, 10, 10), (10, 10, 10)], [(10, 10, 10), (10, 10, 10)]]\<rparr>)
       [0..<448] [] = Inl IndexError
   \<and> upload_image
      \<lparr>b64decode = (\<lambda>image_data. Inr image_data),
       Image_open = (\<lambda>image_bytes. Inr \<lparr>width = 2, height = 2,
          rows = [[(10, 10, 10), (10, 10, 10)], [(10, 10, 10), (10, 10, 10)]]\<rparr>),
       resize = (\<lambda>opened size. Inr opened),
       convert_RGB = (\<lambda>resized. Inr resized)\<rparr>
      ''2024-01-01T00:00:09'' (Inr \<lparr>image_field = Some ''aGk='', name_field = None\<rparr>)
      \<lparr>processed_images = [\<lparr>data = ''0xFF'', timestamp = ''2024-01-01T00:00:00'', name = ''a''\<rparr>],
       sent_images = [], current_image_index = 0\<rparr>
    = (Json_error ''Failed to process image'' 500,
       \<lparr>processed_images = [\<lparr>data = ''0xFF'', timestamp = ''2024-01-01T00:00:00'', name = ''a''\<rparr>],
        sent_images = [], current_image_index = 0\<rparr>)"
proof -
  let ?st = "\<lparr>processed_images = [\<lparr>data = ''0xFF'', timestamp = ''2024-01-01T00:00:00'', name = ''a''\<rparr>],
       sent_images = [], current_image_index = 0\<rparr>"
  let ?bad = "\<lparr>b64decode = (\<lambda>image_data. Inl (Library_error ''Incorrect padding'')),
       Image_open = (\<lambda>image_bytes. Inr white_image),
       resize = (\<lambda>opened size. Inr opened),
       convert_RGB = (\<lambda>resized. Inr resized)\<rparr>"
  let ?tiny = "\<lparr>width = 2, height = 2,
          rows = [[(10, 10, 10), (10, 10, 10)], [(10, 10, 10), (10, 10, 10)]]\<rparr>"
  let ?small = "\<lparr>b64decode = (\<lambda>image_data. Inr image_data),
       Image_open = (\<lambda>image_bytes. Inr ?tiny),
       resize = (\<lambda>opened size. Inr opened),
       convert_RGB = (\<lambda>resized. Inr resized)\<rparr>"
  have "b64decode ?bad ''a'' = Inl (Library_error ''Incorrect padding'')" by simp
  then have first: "upload_image ?bad ''2024-01-01T00:00:09''
      (Inr \<lparr>image_field = Some ''a'', name_field = None\<rparr>) ?st
      = (Json_error ''Failed to process image'' 500, ?st)"
    using process_failure_stores_nothing
      [where lib = ?bad and image_data = "''a''" and e = "Library_error ''Incorrect padding''"
         and json = "\<lparr>image_field = Some ''a'', name_field = None\<rparr>"
         and now = "''2024-01-01T00:00:09''" and st = ?st]
    by simp
  have load: "load_image ?small ''aGk='' = Inr ?tiny"
    by (simp add: load_image_def)
  have raises: "encode_rows (apply_floyd_steinberg_dithering ?tiny) [0..<448] [] = Inl IndexError"
    by code_simp
  have second: "upload_image ?small ''2024-01-01T00:00:09''
      (Inr \<lparr>image_field = Some ''aGk='', name_field = None\<rparr>) ?st
      = (Json_error ''Failed to process image'' 500, ?st)"
    using load raises process_failure_stores_nothing
      [where lib = ?small and image_data = "''aGk=''" and e = IndexError
         and json = "\<lparr>image_field = Some ''aGk='', name_field = None\<rparr>"
         and now = "''2024-01-01T00:00:09''" and st = ?st]
    by simp
  show ?thesis using first raises second by simp
qed

text \<open>
  C7. \<open>closest_palette_color\<close> returns the palette entry at minimum squared Euclidean
  distance from its input, and among the entries at that minimum distance the one listed
  first in the palette order White, Yellow, Orange, Red, Green, Blue, Black: every entry
  listed before the result is strictly farther from the input.
\<close>

theorem closest_palette_color_first_minimum:
  "palette_keys =
     [(255, 255, 255), (255, 255, 0), (255, 165, 0), (255, 0, 0), (0, 128, 0), (0, 0, 255), (0, 0, 0)]
   \<and> (\<exists>i < length palette_keys.
        closest_palette_color rgb = palette_keys ! i
        \<and> (\<forall>j < length palette_keys.
              sq_dist rgb (closest_palette_color rgb) \<le> sq_dist rgb (palette_keys ! j))
        \<and> (\<forall>j < i. sq_dist rgb (closest_palette_color rgb) < sq_dist rgb (palette_keys ! j)))"
  using palette_keys_eq closest_palette_color_nth [of rgb] by blast

text \<open>
  The colour (255, 210, 0) is at distance 2025 from both Yellow and Orange, and nearer to
  them than to any other entry: the result is Yellow, the earlier of the two.
\<close>

theorem closest_palette_color_first_minimum_witness:
  "closest_palette_color (255, 210, 0) = palette_keys ! 1
   \<and> sq_dist (255, 210, 0) (palette_keys ! 1) = sq_dist (255, 210, 0) (palette_keys ! 2)
   \<and> (1::nat) < length palette_keys \<and> (2::nat) < length palette_keys
   \<and> sq_dist (255, 210, 0) (palette_keys ! 1) < sq_dist (255, 210, 0) (palette_keys ! 0)"
  using closest_palette_color_first_minimum [of "(255, 210, 0)"]
  by (simp add: closest_palette_color_def palette_keys_def color_palette_def)

text \<open>
  C8. Every state reached from the initial registry by calls of the four endpoints (upload,
  next image, status, clear), in any number and order and with any library behind the
  upload, satisfies the invariant: the index is below the number of stored images when
  there is one, and is 0 when there is none.
\<close>

theorem registry_invariant_reachable:
  "registry_invariant (run lib calls initial_registry)"
proof -
  have "registry_invariant initial_registry"
    by (simp add: registry_invariant_def initial_registry_def)
  then show ?thesis by (rule run_invariant)
qed

text \<open>
  A successful upload followed by a call of \<open>get_img_data\<close> reaches a registry with one
  image and the index below 1; \<open>clear_images\<close> reaches the empty registry with index 0.
\<close>

theorem registry_invariant_reachable_witness:
  "processed_images (run white_library
      [Upload ''2024-01-01T00:00:00'' (Inr \<lparr>image_field = Some ''aGk='', name_field = None\<rparr>),
       Next] initial_registry) \<noteq> []
   \<and> current_image_index (run white_library
      [Upload ''2024-01-01T00:00:00'' (Inr \<lparr>image_field = Some ''aGk='', name_field = None\<rparr>),
       Next] initial_registry)
     < length (processed_images (run white_library
      [Upload ''2024-01-01T00:00:00'' (Inr \<lparr>image_field = Some ''aGk='', name_field = None\<rparr>),
       Next] initial_registry))
   \<and> processed_images (run white_library [Clear] initial_registry) = []
   \<and> current_image_index (run white_library [Clear] initial_registry) = 0"
proof -
  let ?run = "run white_library
      [Upload ''2024-01-01T00:00:00'' (Inr \<lparr>image_field = Some ''aGk='', name_field = None\<rparr>),
       Next] initial_registry"
  let ?cleared = "run white_library [Clear] initial_registry"
  obtain s where ok: "process_image white_library ''aGk='' = Some s" and s: "s \<noteq> []"
    using process_white_library by blast
  have eq: "?run = snd (get_img_data (store s ''2024-01-01T00:00:00'' None initial_registry))"
    by (rule run_upload_next [OF ok s])
  have ne: "processed_images ?run \<noteq> []"
    unfolding eq by (simp add: get_img_data_processed store_fields)
  have "registry_invariant ?run"
    by (rule registry_invariant_reachable)
  with ne have idx: "current_image_index ?run < length (processed_images ?run)"
    unfolding registry_invariant_def by blast
  have empty: "processed_images ?cleared = []"
    by (simp add: clear_images_def)
  have "registry_invariant ?cleared"
    by (rule registry_invariant_reachable)
  with empty have zero: "current_image_index ?cleared = 0"
    unfolding registry_invariant_def by blast
  from ne idx empty zero show ?thesis by blast
qed

text \<open>
  C9, as the code has it. The 2 by 2 image whose pixels are all (10, 10, 10) dithers to
  four Black pixels, whose codes are 0 and whose tokens are "0x00". The quantisation
  error is not zero: the four pixels are quantised from (10, 10, 10), (14, 14, 14),
  (15, 15, 15) and (20, 20, 20), and each step adds its shares of the error to the
  neighbours inside the image only.
\<close>

theorem solid_near_black_dithers_to_black:
  "rows (apply_floyd_steinberg_dithering
      \<lparr>width = 2, height = 2, rows = [[(10, 10, 10), (10, 10, 10)], [(10, 10, 10), (10, 10, 10)]]\<rparr>)
     = [[(0, 0, 0), (0, 0, 0)], [(0, 0, 0), (0, 0, 0)]]
   \<and> map (map palette_get) (rows (apply_floyd_steinberg_dithering
      \<lparr>width = 2, height = 2, rows = [[(10, 10, 10), (10, 10, 10)], [(10, 10, 10), (10, 10, 10)]]\<rparr>))
     = [[0, 0], [0, 0]]
   \<and> ''0x'' @ format_02X (palette_get (0, 0, 0)) = ''0x00''
   \<and> np_array_int16
      \<lparr>width = 2, height = 2, rows = [[(10, 10, 10), (10, 10, 10)], [(10, 10, 10), (10, 10, 10)]]\<rparr>
     = [[(10, 10, 10), (10, 10, 10)], [(10, 10, 10), (10, 10, 10)]]
   \<and> dither_pixel 2 2 [[(10, 10, 10), (10, 10, 10)], [(10, 10, 10), (10, 10, 10)]] 0 0
     = [[(0, 0, 0), (14, 14, 14)], [(13, 13, 13), (10, 10, 10)]]
   \<and> dither_pixel 2 2 [[(0, 0, 0), (14, 14, 14)], [(13, 13, 13), (10, 10, 10)]] 0 1
     = [[(0, 0, 0), (0, 0, 0)], [(15, 15, 15), (14, 14, 14)]]
   \<and> dither_pixel 2 2 [[(0, 0, 0), (0, 0, 0)], [(15, 15, 15), (14, 14, 14)]] 1 0
     = [[(0, 0, 0), (0, 0, 0)], [(0, 0, 0), (20, 20, 20)]]
   \<and> dither_pixel 2 2 [[(0, 0, 0), (0, 0, 0)], [(0, 0, 0), (20, 20, 20)]] 1 1
     = [[(0, 0, 0), (0, 0, 0)], [(0, 0, 0), (0, 0, 0)]]"
  by code_simp

text \<open>
  The claim C9 as the specification states it, with a zero error, fails: the error of the
  first pixel is (10, 10, 10), and its step changes the pixel to the right of it.
\<close>

theorem solid_near_black_error_counterexample:
  "quant_error (10, 10, 10) (closest_palette_color (10, 10, 10)) \<noteq> (0, 0, 0)
   \<and> dither_pixel 2 2 [[(10, 10, 10), (10, 10, 10)], [(10, 10, 10), (10, 10, 10)]] 0 0 ! 0 ! 1
       \<noteq> (10, 10, 10)"
  by code_simp

text \<open>
  C10. Frame of the registry operations. The append of an upload leaves the index, the
  delivered list and the records stored before as they are, and adds one record that
  holds the processed data; \<open>upload_image\<close> as a whole changes nothing else, whatever it
  answers. \<open>get_img_data\<close> leaves the list of stored records as it is and returns the
  data of the record at the index, as stored.
\<close>

theorem registry_frame_effects:
  "current_image_index (store d t n st) = current_image_index st
   \<and> sent_images (store d t n st) = sent_images st
   \<and> (\<exists>r. processed_images (store d t n st) = processed_images st @ [r] \<and> data r = d)
   \<and> (\<forall>i < length (processed_images st).
         processed_images (store d t n st) ! i = processed_images st ! i)
   \<and> current_image_index (snd (upload_image lib now request st)) = current_image_index st
   \<and> sent_images (snd (upload_image lib now request st)) = sent_images st
   \<and> (processed_images (snd (upload_image lib now request st)) = processed_images st
        \<or> (\<exists>r. processed_images (snd (upload_image lib now request st))
                  = processed_images st @ [r]))
   \<and> processed_images (snd (get_img_data st)) = processed_images st
   \<and> (processed_images st \<noteq> [] \<longrightarrow>
         fst (get_img_data st) =
           Image_data (data (processed_images st !
                               (current_image_index st mod length (processed_images st)))))"
proof -
  obtain r st' where res: "upload_image lib now request st = (r, st')"
    by (cases "upload_image lib now request st")
  from upload_image_cases [OF res]
  have "current_image_index st' = current_image_index st"
    and "sent_images st' = sent_images st"
    and "processed_images st' = processed_images st
         \<or> (\<exists>r. processed_images st' = processed_images st @ [r])"
    by (auto simp: store_fields)
  then show ?thesis
    using res get_img_data_processed [of st] get_img_data_fields(1) [of st]
    by (simp add: store_fields nth_append)
qed

text \<open>
  A registry with two stored images and the index at 1: a further append keeps both
  records, and \<open>get_img_data\<close> returns the data of the second.
\<close>

theorem registry_frame_effects_witness:
  "(1::nat) < length (processed_images
      \<lparr>processed_images =
         [\<lparr>data = ''0xFF'', timestamp = ''2024-01-01T00:00:00'', name = ''a''\<rparr>,
          \<lparr>data = ''0x00'', timestamp = ''2024-01-01T00:00:05'', name = ''b''\<rparr>],
       sent_images = [], current_image_index = 1\<rparr>)
   \<and> processed_images (store ''0x2B'' ''2024-01-01T00:00:09'' None
      \<lparr>processed_images =
         [\<lparr>data = ''0xFF'', timestamp = ''2024-01-01T00:00:00'', name = ''a''\<rparr>,
          \<lparr>data = ''0x00'', timestamp = ''2024-01-01T00:00:05'', name = ''b''\<rparr>],
       sent_images = [], current_image_index = 1\<rparr>) ! 1
     = \<lparr>data = ''0x00'', timestamp = ''2024-01-01T00:00:05'', name = ''b''\<rparr>
   \<and> fst (get_img_data
      \<lparr>processed_images =
         [\<lparr>data = ''0xFF'', timestamp = ''2024-01-01T00:00:00'', name = ''a''\<rparr>,
          \<lparr>data = ''0x00'', timestamp = ''2024-01-01T00:00:05'', name = ''b''\<rparr>],
       sent_images = [], current_image_index = 1\<rparr>) = Image_data ''0x00''"
proof -
  let ?st = "\<lparr>processed_images =
         [\<lparr>data = ''0xFF'', timestamp = ''2024-01-01T00:00:00'', name = ''a''\<rparr>,
          \<lparr>data = ''0x00'', timestamp = ''2024-01-01T00:00:05'', name = ''b''\<rparr>],
       sent_images = [], current_image_index = 1\<rparr>"
  let ?lib = "\<lparr>b64decode = (\<lambda>s. Inl (Library_error ''Incorrect padding'')),
       Image_open = (\<lambda>s. Inl (Library_error ''cannot identify image file'')),
       resize = (\<lambda>(im :: unit) size. Inr im),
       convert_RGB = (\<lambda>im. Inl (Library_error ''cannot identify image file''))\<rparr>"
  note frame = registry_frame_effects
    [where d = "''0x2B''" and t = "''2024-01-01T00:00:09''" and n = None and st = ?st
       and lib = ?lib and now = "''2024-01-01T00:00:09''" and request = "Inl IndexError"]
  have len: "(1::nat) < length (processed_images ?st)" by simp
  have ne: "processed_images ?st \<noteq> []" by simp
  from frame have "\<forall>i < length (processed_images ?st).
      processed_images (store ''0x2B'' ''2024-01-01T00:00:09'' None ?st) ! i
        = processed_images ?st ! i"
    by blast
  with len have kept: "processed_images (store ''0x2B'' ''2024-01-01T00:00:09'' None ?st) ! 1
      = processed_images ?st ! 1"
    by blast
  from frame ne have "fst (get_img_data ?st) =
      Image_data (data (processed_images ?st !
        (current_image_index ?st mod length (processed_images ?st))))"
    by blast
  then have "fst (get_img_data ?st) = Image_data ''0x00''" by simp
  with len kept show ?thesis by simp
qed


end
